theory Spec2Isabelle
  imports Main "HOL-Library.Word"
begin

section \<open>JavaScript values used by the task store\<close>

text \<open>
  A JavaScript string is a sequence of 16-bit code units. \<open>js\<close> writes a string
  literal of the source (its characters are all ASCII) as such a sequence.
\<close>

type_synonym code_unit = "16 word"

type_synonym js_string = "code_unit list"

definition js :: "string \<Rightarrow> js_string" where
  "js s = map of_char s"

text \<open>
  \<open>String.prototype.trim\<close> removes the WhiteSpace and LineTerminator code points of
  ECMAScript from both ends: TAB, LF, VT, FF, CR, SPACE, NBSP, U+1680, U+2000 to
  U+200A, U+2028, U+2029, U+202F, U+205F, U+3000 and U+FEFF.
\<close>

definition isWhiteSpace :: "code_unit \<Rightarrow> bool" where
  "isWhiteSpace c \<longleftrightarrow>
     c \<in> {0x09, 0x0A, 0x0B, 0x0C, 0x0D, 0x20, 0xA0, 0x1680,
          0x2028, 0x2029, 0x202F, 0x205F, 0x3000, 0xFEFF}
     \<or> (0x2000 \<le> c \<and> c \<le> 0x200A)"

definition trim :: "js_string \<Rightarrow> js_string" where
  "trim s = rev (dropWhile isWhiteSpace (rev (dropWhile isWhiteSpace s)))"

text \<open>\<open>s.substr(start, len)\<close> for a start that is not negative.\<close>

definition substr :: "nat \<Rightarrow> nat \<Rightarrow> js_string \<Rightarrow> js_string" where
  "substr start len s = take len (drop start s)"

text \<open>
  \<open>n.toString()\<close> of an integer that is not negative and below \<open>10^21\<close>, as every
  value of \<open>Date.now()\<close> is: its decimal digits.
\<close>

fun toString10 :: "nat \<Rightarrow> js_string" where
  "toString10 n =
     (if n < 10 then [of_nat (48 + n)]
      else toString10 (n div 10) @ [of_nat (48 + n mod 10)])"

declare toString10.simps [simp del]

text \<open>
  \<open>Array.prototype.findIndex\<close>: the index of the first element that satisfies the
  test; \<open>None\<close> stands for the result \<open>-1\<close>.
\<close>

fun findIndex :: "('a \<Rightarrow> bool) \<Rightarrow> 'a list \<Rightarrow> nat option" where
  "findIndex P [] = None"
| "findIndex P (x # xs) = (if P x then Some 0 else map_option Suc (findIndex P xs))"

text \<open>
  \<open>xs.splice(start, deleteCount, ...items)\<close> for a start that is not negative: the
  removed elements, and the array afterwards. \<open>take\<close> and \<open>drop\<close> clamp a start or a
  count beyond the end as \<open>splice\<close> does.
\<close>

definition splice_js :: "nat \<Rightarrow> nat \<Rightarrow> 'a list \<Rightarrow> 'a list \<Rightarrow> 'a list \<times> 'a list" where
  "splice_js start deleteCount items xs =
     (take deleteCount (drop start xs),
      take start xs @ items @ drop (start + deleteCount) xs)"

text \<open>
  The two exceptions \<open>addTask\<close> can raise: the \<open>TypeError\<close> of the engine when a
  property of \<open>undefined\<close> is read, and an \<open>Error\<close> object with its message.
\<close>

datatype js_error = TypeError | Error js_string

section \<open>The environment\<close>

text \<open>
  The clock and the random number generator are read, not computed: each call of an
  operation takes the values that \<open>Date.now()\<close>, \<open>Math.random().toString(36)\<close> and
  \<open>new Date().toISOString()\<close> return during that call.
\<close>

record env =
  Date_now :: nat
  Math_random_toString36 :: js_string
  Date_toISOString :: js_string

section \<open>The data model\<close>

text \<open>
  The object that \<open>getStats\<close> returns. It is declared before the task, so that
  \<open>completed\<close> alone names the field of the task.
\<close>

record stats =
  total :: nat
  completed :: nat
  pending :: nat

text \<open>
  \<open>completedAt\<close> is not a property of a new task (\<open>Undefined\<close>); \<open>toggleTask\<close>
  assigns it an ISO timestamp or \<open>null\<close>.
\<close>

datatype completedAt_value = Undefined | Null | Timestamp js_string

text \<open>
  The task object. \<open>id\<close> and \<open>text\<close> are taken in Isabelle, hence the suffix.
  \<open>dueDate\<close> is \<open>null\<close> (\<open>None\<close>) or the caller's string.
\<close>

record task =
  id_field :: js_string
  text_field :: js_string
  completed :: bool
  createdAt :: js_string
  completedAt :: completedAt_value
  dueDate :: "js_string option"
  priority :: js_string

text \<open>
  The argument of \<open>addTask\<close>: an object whose properties \<open>text\<close>, \<open>dueDate\<close> and
  \<open>priority\<close> are strings or missing (\<open>None\<close>).
\<close>

record taskData =
  text_arg :: "js_string option"
  dueDate_arg :: "js_string option"
  priority_arg :: "js_string option"

text \<open>
  A callback that \<open>subscribe\<close> registers is called with the array of the store
  itself (\<open>callback(tasks)\<close>), inside the operation and with no \<open>try\<close> around it.
  It is modelled by what it does with that array: the content of the array when
  the callback ends, and the exception it ends with, if any. (A callback that
  calls the operations of \<open>TaskModel\<close> itself is not described by this.)
\<close>

type_synonym observer = "task list \<Rightarrow> task list \<times> js_error option"

text \<open>
  The state of the module \<open>TaskModel\<close>: its two private variables \<open>tasks\<close> and
  \<open>observers\<close>, and the slot \<open>"tasks"\<close> of \<open>localStorage\<close> with the condition of the
  storage (\<open>setItem\<close> throws when the quota is exceeded or storage is disabled; the
  content of the slot is held as the sequence that \<open>JSON.stringify\<close> serialised).
  \<open>calls\<close> records every invocation of a callback, in order, by the sequence the
  callback was given, so that "notifies" and "does not notify" are statements
  about the state.
\<close>

record store =
  tasks :: "task list"
  observers :: "observer list"
  localStorage_tasks :: "task list option"
  setItem_succeeds :: bool
  calls :: "task list list"

section \<open>The operations of TaskModel\<close>

text \<open>
  \<open>observers.forEach((callback) => callback(tasks))\<close>: the callbacks run in the
  order of their registration, each on the array as the one before left it; the
  exception of a callback ends the loop and leaves \<open>notifyObservers\<close>.
\<close>

fun forEach_observers :: "observer list \<Rightarrow> store \<Rightarrow> js_error option \<times> store" where
  "forEach_observers [] s = (None, s)"
| "forEach_observers (callback # rest) s =
     (case callback (tasks s) of
        (array_after, thrown) \<Rightarrow>
          (let s1 = s\<lparr>tasks := array_after, calls := calls s @ [tasks s]\<rparr>
           in case thrown of
                Some err \<Rightarrow> (Some err, s1)
              | None \<Rightarrow> forEach_observers rest s1))"

definition notifyObservers :: "store \<Rightarrow> js_error option \<times> store" where
  "notifyObservers s = forEach_observers (observers s) s"

text \<open>
  \<open>notifyObservers(); return v\<close>: the value is returned unless a callback has
  thrown.
\<close>

definition then_return :: "js_error option \<times> store \<Rightarrow> 'a \<Rightarrow> (js_error + 'a) \<times> store" where
  "then_return r v = (case r of (None, s) \<Rightarrow> (Inr v, s) | (Some err, s) \<Rightarrow> (Inl err, s))"

definition generateId :: "env \<Rightarrow> js_string" where
  "generateId e = toString10 (Date_now e) @ substr 2 9 (Math_random_toString36 e)"

definition subscribe :: "observer \<Rightarrow> store \<Rightarrow> store" where
  "subscribe callback s = s\<lparr>observers := observers s @ [callback]\<rparr>"

definition getAllTasks :: "store \<Rightarrow> task list" where
  "getAllTasks s = tasks s"

definition getFilteredTasks :: "js_string \<Rightarrow> store \<Rightarrow> task list" where
  "getFilteredTasks filter_arg s =
     (if filter_arg = js ''completed'' then filter (\<lambda>task. completed task) (tasks s)
      else if filter_arg = js ''pending'' then filter (\<lambda>task. \<not> completed task) (tasks s)
      else tasks s)"

text \<open>\<open>saveTasks\<close> swallows the exception of \<open>setItem\<close>.\<close>

definition saveTasks :: "store \<Rightarrow> store" where
  "saveTasks s = (if setItem_succeeds s then s\<lparr>localStorage_tasks := Some (tasks s)\<rparr> else s)"

text \<open>
  \<open>addTask\<close> returns the created task or raises; the store after the call is
  returned in both cases. The object literal is evaluated in the order of the
  source: \<open>generateId()\<close>, then \<open>taskData.text.trim()\<close>, which raises \<open>TypeError\<close> when
  \<open>text\<close> is missing. \<open>x || d\<close> is \<open>d\<close> when \<open>x\<close> is missing or the empty string.
\<close>

definition addTask :: "env \<Rightarrow> taskData \<Rightarrow> store \<Rightarrow> (js_error + task) \<times> store" where
  "addTask e taskData s =
     (let new_id = generateId e in
      case text_arg taskData of
        None \<Rightarrow> (Inl TypeError, s)
      | Some txt \<Rightarrow>
          let newTask =
            \<lparr> id_field = new_id,
              text_field = trim txt,
              completed = False,
              createdAt = Date_toISOString e,
              completedAt = Undefined,
              dueDate = (case dueDate_arg taskData of
                           None \<Rightarrow> None
                         | Some d \<Rightarrow> if d = [] then None else Some d),
              priority = (case priority_arg taskData of
                            None \<Rightarrow> js ''medium''
                          | Some p \<Rightarrow> if p = [] then js ''medium'' else p) \<rparr>
          in if text_field newTask = []
             then (Inl (Error (js ''Task text cannot be empty'')), s)
             else then_return
                    (notifyObservers (saveTasks (s\<lparr>tasks := newTask # tasks s\<rparr>)))
                    newTask)"

text \<open>
  \<open>tasks.find\<close> returns the first task with the id, and the two assignments change
  that object in place: the element at the first matching index is replaced.
  \<open>toggleTask\<close> returns nothing; the result is the exception it ends with, if any,
  and the store.
\<close>

definition toggleTask :: "env \<Rightarrow> js_string \<Rightarrow> store \<Rightarrow> js_error option \<times> store" where
  "toggleTask e taskId s =
     (case findIndex (\<lambda>t. id_field t = taskId) (tasks s) of
        None \<Rightarrow> (None, s)
      | Some i \<Rightarrow>
          let task = tasks s ! i;
              task1 = task\<lparr>completed := \<not> completed task\<rparr>;
              task2 = task1\<lparr>completedAt :=
                        (if completed task1 then Timestamp (Date_toISOString e) else Null)\<rparr>
          in notifyObservers (saveTasks (s\<lparr>tasks := (tasks s)[i := task2]\<rparr>)))"

definition deleteTask :: "js_string \<Rightarrow> store \<Rightarrow> (js_error + bool) \<times> store" where
  "deleteTask taskId s =
     (let initialLength = length (tasks s);
          s1 = s\<lparr>tasks := filter (\<lambda>t. id_field t \<noteq> taskId) (tasks s)\<rparr>
      in if length (tasks s1) \<noteq> initialLength
         then then_return (notifyObservers (saveTasks s1)) True
         else (Inr False, s1))"

text \<open>
  In \<open>reorderTasks\<close> the first \<open>splice\<close> removes one element, since \<open>draggedIndex\<close> is
  an index of the array (lemma \<open>findIndex_Some\<close> below); the branch for an empty
  result is never taken.
\<close>

definition reorderTasks :: "js_string \<Rightarrow> js_string \<Rightarrow> store \<Rightarrow> (js_error + bool) \<times> store" where
  "reorderTasks draggedTaskId targetTaskId s =
     (case (findIndex (\<lambda>t. id_field t = draggedTaskId) (tasks s),
            findIndex (\<lambda>t. id_field t = targetTaskId) (tasks s)) of
        (Some draggedIndex, Some targetIndex) \<Rightarrow>
          (case splice_js draggedIndex 1 [] (tasks s) of
             (draggedTask # _, tasks1) \<Rightarrow>
               then_return (notifyObservers (saveTasks
                  (s\<lparr>tasks := snd (splice_js targetIndex 0 [draggedTask] tasks1)\<rparr>))) True
           | ([], tasks1) \<Rightarrow>
               then_return (notifyObservers (saveTasks (s\<lparr>tasks := tasks1\<rparr>))) True)
      | _ \<Rightarrow> (Inr False, s))"

definition getStats :: "store \<Rightarrow> stats" where
  "getStats s =
     (let total = length (tasks s);
          completed = length (filter (\<lambda>t. task.completed t) (tasks s));
          pending = total - completed
      in \<lparr> total = total, completed = completed, pending = pending \<rparr>)"

text \<open>
  The one caller of \<open>reorderTasks\<close>, in \<open>EventHandlers\<close>. \<open>draggedTaskId\<close> is the
  variable that \<open>handleDragStart\<close> sets and \<open>handleDragEnd\<close> resets to \<open>null\<close>
  (\<open>None\<close>); the calls on the event and its element do not touch the store.
\<close>

definition handleDrop :: "js_string option \<Rightarrow> js_string \<Rightarrow> store \<Rightarrow> js_error option \<times> store" where
  "handleDrop draggedTaskId targetTaskId s =
     (case draggedTaskId of
        None \<Rightarrow> (None, s)
      | Some dragged \<Rightarrow>
          if dragged \<noteq> [] \<and> dragged \<noteq> targetTaskId
          then (case reorderTasks dragged targetTaskId s of
                  (Inl err, s') \<Rightarrow> (Some err, s')
                | (Inr _, s') \<Rightarrow> (None, s'))
          else (None, s))"

section \<open>Notions used to state the properties\<close>

text \<open>
  The source raises one error of its own, \<open>new Error("Task text cannot be empty")\<close>;
  it is the failure that the specification calls \<open>ValidationError\<close>.
\<close>

definition ValidationError :: js_error where
  "ValidationError = Error (js ''Task text cannot be empty'')"


text \<open>
  An observer that only reads: it returns normally and leaves the array it is
  given as it is. The one observer of the program, \<open>onTasksChange\<close>, is of this
  kind (it does not use its argument).
\<close>

definition reads_only :: "observer \<Rightarrow> bool" where
  "reads_only callback \<longleftrightarrow> (\<forall>received. callback received = (received, None))"

section \<open>References to arrays and objects\<close>

text \<open>
  The store above holds the content of the sequence, which is what the operations
  compute with. Whether code that is handed a sequence can change the store
  through it depends on which array it is handed. For that question the arrays and
  the task objects are placed in a heap: an array is a list of references to
  objects, and the variable \<open>tasks\<close> holds a reference to an array. A callback is
  what it does to the heap when it is called with a reference.
\<close>

type_synonym ref = nat

record heap =
  arrays :: "ref \<Rightarrow> ref list option"
  objects :: "ref \<Rightarrow> task option"
  next_ref :: ref

type_synonym callback = "ref \<Rightarrow> heap \<Rightarrow> heap"

record store_ref =
  tasks_var :: ref
  observers_var :: "callback list"
  heap :: heap

text \<open>\<open>observers.forEach((callback) => callback(tasks))\<close>\<close>

definition notifyObservers_ref :: "store_ref \<Rightarrow> store_ref" where
  "notifyObservers_ref m =
     m\<lparr>heap := fold (\<lambda>callback h. callback (tasks_var m) h) (observers_var m) (heap m)\<rparr>"

definition subscribe_ref :: "callback \<Rightarrow> store_ref \<Rightarrow> store_ref" where
  "subscribe_ref callback m = m\<lparr>observers_var := observers_var m @ [callback]\<rparr>"

text \<open>\<open>return [...tasks]\<close>: a new array that holds the same references.\<close>

definition getAllTasks_ref :: "store_ref \<Rightarrow> ref \<times> store_ref" where
  "getAllTasks_ref m =
     (let h = heap m; r = next_ref h
      in (r, m\<lparr>heap := h\<lparr>arrays := (arrays h)(r := arrays h (tasks_var m)),
                          next_ref := Suc r\<rparr>\<rparr>))"

text \<open>The sequence of tasks that is read through a reference to an array.\<close>

definition sequence_at :: "heap \<Rightarrow> ref \<Rightarrow> task list option" where
  "sequence_at h r =
     (case arrays h r of None \<Rightarrow> None | Some elems \<Rightarrow> those (map (objects h) elems))"

definition live_tasks :: "store_ref \<Rightarrow> task list option" where
  "live_tasks m = sequence_at (heap m) (tasks_var m)"

text \<open>
  What code outside the store can do with a reference it holds: write the array
  (\<open>push\<close>, \<open>pop\<close>, \<open>splice\<close>, \<open>length = 0\<close>, an indexed assignment), or assign to a
  property of an object.
\<close>

definition write_array :: "ref \<Rightarrow> ref list \<Rightarrow> heap \<Rightarrow> heap" where
  "write_array r elems h = h\<lparr>arrays := (arrays h)(r \<mapsto> elems)\<rparr>"

definition write_object :: "ref \<Rightarrow> task \<Rightarrow> heap \<Rightarrow> heap" where
  "write_object r t h = h\<lparr>objects := (objects h)(r \<mapsto> t)\<rparr>"

section \<open>Concrete stores\<close>

text \<open>An observer that only reads, and one that throws without writing.\<close>

definition reader :: observer where
  "reader received = (received, None)"

definition failing :: observer where
  "failing received = (received, Some (Error (js ''render failed'')))"

text \<open>An observer that empties the array it is given (\<open>received.length = 0\<close>).\<close>

definition clearing :: observer where
  "clearing received = ([], None)"

text \<open>
  Two readings of the clock and of the random number generator, one minute apart,
  and the tasks of the scenario of the specification as \<open>addTask\<close> creates them.
\<close>

definition clock1 :: env where
  "clock1 = \<lparr> Date_now = 1700000000000,
              Math_random_toString36 = js ''0.4fzyo82mvyr'',
              Date_toISOString = js ''2023-11-14T22:13:20.000Z'' \<rparr>"

definition clock2 :: env where
  "clock2 = \<lparr> Date_now = 1700000060000,
              Math_random_toString36 = js ''0.9k2h7qd1xw3'',
              Date_toISOString = js ''2023-11-14T22:14:20.000Z'' \<rparr>"

definition buy_milk :: task where
  "buy_milk = \<lparr> id_field = js ''17000000000004fzyo82mv'',
                text_field = js ''Buy milk'',
                completed = False,
                createdAt = js ''2023-11-14T22:13:20.000Z'',
                completedAt = Undefined,
                dueDate = None,
                priority = js ''medium'' \<rparr>"

definition walk_dog :: task where
  "walk_dog = \<lparr> id_field = js ''17000000600009k2h7qd1x'',
                text_field = js ''Walk dog'',
                completed = False,
                createdAt = js ''2023-11-14T22:14:20.000Z'',
                completedAt = Undefined,
                dueDate = None,
                priority = js ''medium'' \<rparr>"

definition input :: "string \<Rightarrow> taskData" where
  "input txt = \<lparr> text_arg = Some (js txt), dueDate_arg = Some [], priority_arg = Some (js ''medium'') \<rparr>"

definition empty_store :: store where
  "empty_store = \<lparr> tasks = [], observers = [reader], localStorage_tasks = None,
                    setItem_succeeds = True, calls = [] \<rparr>"

definition one_task :: store where
  "one_task = \<lparr> tasks = [buy_milk], observers = [reader],
                 localStorage_tasks = Some [buy_milk],
                 setItem_succeeds = True,
                 calls = [[buy_milk]] \<rparr>"

definition two_tasks :: store where
  "two_tasks = \<lparr> tasks = [walk_dog, buy_milk], observers = [reader],
                  localStorage_tasks = Some [walk_dog, buy_milk],
                  setItem_succeeds = True,
                  calls = [[buy_milk], [walk_dog, buy_milk]] \<rparr>"

text \<open>
  A third task, added when the clock and the generator return what they returned
  for \<open>buy_milk\<close>.
\<close>

definition feed_cat :: task where
  "feed_cat = buy_milk\<lparr>text_field := js ''Feed cat''\<rparr>"

definition same_id_store :: store where
  "same_id_store =
     \<lparr> tasks = [feed_cat, walk_dog, buy_milk], observers = [reader],
       localStorage_tasks = Some [feed_cat, walk_dog, buy_milk],
       setItem_succeeds = True,
       calls = [[buy_milk], [walk_dog, buy_milk], [feed_cat, walk_dog, buy_milk]] \<rparr>"

text \<open>The store of two tasks with the observer that throws in place of the reader.\<close>

definition failing_store :: store where
  "failing_store = two_tasks\<lparr>observers := [failing]\<rparr>"

text \<open>
  The store of two tasks after \<open>toggleTask\<close> has completed \<open>buy_milk\<close> at the first
  reading of the clock.
\<close>

definition milk_bought :: task where
  "milk_bought = buy_milk\<lparr>completed := True,
                           completedAt := Timestamp (js ''2023-11-14T22:13:20.000Z'')\<rparr>"

definition bought_store :: store where
  "bought_store =
     \<lparr> tasks = [walk_dog, milk_bought], observers = [reader],
       localStorage_tasks = Some [walk_dog, milk_bought],
       setItem_succeeds = True,
       calls = [[buy_milk], [walk_dog, buy_milk], [walk_dog, milk_bought]] \<rparr>"

text \<open>
  A store in the heap: the array at address 0 holds the object at address 1, and
  the one subscribed callback empties the array it is given
  (\<open>(received) => { received.length = 0 }\<close>).
\<close>

definition one_task_heap :: heap where
  "one_task_heap = \<lparr> arrays = [0 \<mapsto> [1]], objects = [1 \<mapsto> buy_milk], next_ref = 2 \<rparr>"

definition clearing_store :: store_ref where
  "clearing_store = \<lparr> tasks_var = 0,
                       observers_var = [\<lambda>received. write_array received []],
                       heap = one_task_heap \<rparr>"

section \<open>Library functions\<close>

lemma findIndex_None: "findIndex P xs = None \<longleftrightarrow> (\<forall>x\<in>set xs. \<not> P x)"
  by (induction xs) auto

lemma findIndex_Some:
  "findIndex P xs = Some i \<Longrightarrow> i < length xs \<and> P (xs ! i) \<and> (\<forall>j<i. \<not> P (xs ! j))"
proof (induction xs arbitrary: i)
  case Nil
  then show ?case by simp
next
  case (Cons x xs)
  show ?case
  proof (cases "P x")
    case True
    with Cons.prems show ?thesis by simp
  next
    case False
    with Cons.prems obtain k where k: "findIndex P xs = Some k" "i = Suc k"
      by auto
    from Cons.IH [OF k(1)] False k(2) show ?thesis
      by (auto simp: less_Suc_eq_0_disj)
  qed
qed

lemma findIndex_present: "\<exists>x\<in>set xs. P x \<Longrightarrow> \<exists>i. findIndex P xs = Some i"
  using findIndex_None [of P xs] by (cases "findIndex P xs") auto

lemma splice_remove_one:
  "i < length xs \<Longrightarrow> splice_js i (Suc 0) [] xs = ([xs ! i], take i xs @ drop (Suc i) xs)"
  by (simp add: splice_js_def take_Suc_conv_app_nth Cons_nth_drop_Suc [symmetric])

lemma splice_insert_one:
  "snd (splice_js i 0 [x] xs) = take i xs @ x # drop i xs"
  by (simp add: splice_js_def)



lemma remove_insert_same:
  "i < length xs \<Longrightarrow>
   take i (take i xs @ drop (Suc i) xs) @ xs ! i # drop i (take i xs @ drop (Suc i) xs) = xs"
  by (simp add: Cons_nth_drop_Suc)




section \<open>Notification and persistence\<close>

lemma tasks_saveTasks: "tasks (saveTasks s) = tasks s"
  by (simp add: saveTasks_def)

lemma calls_saveTasks: "calls (saveTasks s) = calls s"
  by (simp add: saveTasks_def)

lemma observers_saveTasks: "observers (saveTasks s) = observers s"
  by (simp add: saveTasks_def)

lemma storage_saveTasks:
  "localStorage_tasks (saveTasks s) = (if setItem_succeeds s then Some (tasks s) else localStorage_tasks s)"
  by (simp add: saveTasks_def)

lemmas store_simps = tasks_saveTasks calls_saveTasks observers_saveTasks storage_saveTasks

text \<open>
  Observers that only read are called one after the other with the sequence of
  the store, which they leave as it is, and \<open>notifyObservers\<close> returns normally.
\<close>

lemma forEach_observers_readers:
  assumes "\<forall>callback\<in>set cbs. reads_only callback"
  shows "forEach_observers cbs s = (None, s\<lparr>calls := calls s @ replicate (length cbs) (tasks s)\<rparr>)"
  using assms
proof (induction cbs arbitrary: s)
  case Nil
  then show ?case by simp
next
  case (Cons callback rest)
  from Cons.prems have cb: "callback (tasks s) = (tasks s, None)"
    by (simp add: reads_only_def)
  from Cons.prems have "\<forall>callback\<in>set rest. reads_only callback" by simp
  note IH = Cons.IH [OF this]
  show ?case
    by (simp add: cb IH replicate_append_same)
qed

lemma notifyObservers_readers:
  assumes "\<forall>callback\<in>set (observers s). reads_only callback"
  shows "notifyObservers s = (None, s\<lparr>calls := calls s @ replicate (length (observers s)) (tasks s)\<rparr>)"
  using forEach_observers_readers [OF assms] by (simp add: notifyObservers_def)

lemma notify_after_save:
  assumes "\<forall>callback\<in>set (observers s). reads_only callback"
  shows "then_return (notifyObservers (saveTasks (s\<lparr>tasks := ts\<rparr>))) v =
     (Inr v, (saveTasks (s\<lparr>tasks := ts\<rparr>))
        \<lparr>calls := calls s @ replicate (length (observers s)) ts\<rparr>)"
proof -
  have "\<forall>callback\<in>set (observers (saveTasks (s\<lparr>tasks := ts\<rparr>))). reads_only callback"
    using assms by (simp add: store_simps)
  from notifyObservers_readers [OF this] show ?thesis
    by (simp add: then_return_def store_simps)
qed


lemma reads_only_reader: "reads_only reader"
  by (simp add: reads_only_def reader_def)

section \<open>The scenario of the specification, evaluated\<close>

text \<open>
  From the empty store, \<open>addTask({text: "Buy milk"})\<close> and then
  \<open>addTask({text: "Walk dog"})\<close> a minute later give the stores \<open>one_task\<close> and
  \<open>two_tasks\<close>; \<open>toggleTask\<close> on the first task then gives \<open>bought_store\<close>. A third
  \<open>addTask\<close> for which the clock and the generator return the values of the first
  gives \<open>same_id_store\<close>. With the observer that empties the array it is given,
  the store is empty after \<open>addTask\<close> has returned the task.
\<close>

lemmas task_defs = js_def buy_milk_def walk_dog_def feed_cat_def milk_bought_def
  empty_store_def one_task_def two_tasks_def same_id_store_def bought_store_def failing_store_def

lemmas eval_defs = addTask_def generateId_def substr_def toString10.simps Let_def input_def
  trim_def isWhiteSpace_def notifyObservers_def saveTasks_def then_return_def
  reader_def failing_def clock1_def clock2_def task_defs

lemma scenario_1: "addTask clock1 (input ''Buy milk'') empty_store = (Inr buy_milk, one_task)"
  by (simp add: eval_defs)


lemma scenario_3: "addTask clock1 (input ''Feed cat'') two_tasks = (Inr feed_cat, same_id_store)"
  by (simp add: eval_defs)

lemma scenario_4: "toggleTask clock1 (id_field buy_milk) two_tasks = (None, bought_store)"
  by (simp add: toggleTask_def eval_defs)

lemma addTask_clearing_observer:
  "fst (addTask clock1 (input ''Feed cat'') (two_tasks\<lparr>observers := [clearing]\<rparr>)) = Inr feed_cat
   \<and> getAllTasks (snd (addTask clock1 (input ''Feed cat'') (two_tasks\<lparr>observers := [clearing]\<rparr>))) = []"
  by (simp add: getAllTasks_def clearing_def eval_defs)

section \<open>addTask\<close>






text \<open>
  C2. For every input whose text is empty after trimming (the empty string and
  strings of white space among them), \<open>addTask\<close> raises the validation error and
  changes nothing: \<open>getAllTasks()\<close> is as before, nothing is written to the storage
  and no observer is called.
\<close>

theorem addTask_empty_text:
  assumes "text_arg taskData = Some txt" and "trim txt = []"
  shows "fst (addTask e taskData s) = Inl ValidationError
    \<and> snd (addTask e taskData s) = s
    \<and> getAllTasks (snd (addTask e taskData s)) = getAllTasks s
    \<and> localStorage_tasks (snd (addTask e taskData s)) = localStorage_tasks s
    \<and> calls (snd (addTask e taskData s)) = calls s"
  using assms by (simp add: addTask_def ValidationError_def)

theorem addTask_empty_text_witness:
  "text_arg (input ''  '') = Some (js ''  '') \<and> trim (js ''  '') = []
   \<and> addTask clock1 (input ''  '') two_tasks = (Inl ValidationError, two_tasks)
   \<and> text_arg (input '''') = Some (js '''') \<and> trim (js '''') = []
   \<and> addTask clock1 (input '''') two_tasks = (Inl ValidationError, two_tasks)"
proof -
  have a1: "text_arg (input ''  '') = Some (js ''  '')" by (simp add: input_def)
  have a2: "trim (js ''  '') = []" by (simp add: trim_def js_def isWhiteSpace_def)
  have b1: "text_arg (input '''') = Some (js '''')" by (simp add: input_def)
  have b2: "trim (js '''') = []" by (simp add: trim_def js_def)
  from addTask_empty_text [OF a1 a2, of clock1 two_tasks]
    addTask_empty_text [OF b1 b2, of clock1 two_tasks] a1 a2 b1 b2
  show ?thesis by (simp add: prod_eq_iff)
qed

text \<open>
  C10. For every input object without a \<open>text\<close> property, \<open>addTask\<close> raises
  \<open>TypeError\<close>, which is not the validation error, and the store is unchanged.
\<close>

theorem addTask_missing_text:
  assumes "text_arg taskData = None"
  shows "fst (addTask e taskData s) = Inl TypeError
    \<and> TypeError \<noteq> ValidationError
    \<and> snd (addTask e taskData s) = s"
  using assms by (simp add: addTask_def ValidationError_def)

theorem addTask_missing_text_witness:
  "text_arg \<lparr>text_arg = None, dueDate_arg = None, priority_arg = None\<rparr> = None
   \<and> addTask clock1 \<lparr>text_arg = None, dueDate_arg = None, priority_arg = None\<rparr> two_tasks
       = (Inl TypeError, two_tasks)"
proof -
  have h: "text_arg \<lparr>text_arg = None, dueDate_arg = None, priority_arg = None\<rparr> = None"
    by simp
  from addTask_missing_text [OF h, of clock1 two_tasks] h show ?thesis
    by (simp add: prod_eq_iff)
qed

section \<open>reorderTasks\<close>

lemma reorderTasks_found:
  assumes "findIndex (\<lambda>t. id_field t = a) (tasks s) = Some di"
    and "findIndex (\<lambda>t. id_field t = b) (tasks s) = Some ti"
  shows "reorderTasks a b s =
     then_return (notifyObservers (saveTasks (s\<lparr>tasks :=
        take ti (take di (tasks s) @ drop (Suc di) (tasks s)) @
        tasks s ! di # drop ti (take di (tasks s) @ drop (Suc di) (tasks s))\<rparr>))) True"
proof -
  from findIndex_Some [OF assms(1)] have "di < length (tasks s)" by simp
  then have "splice_js di 1 [] (tasks s) = ([tasks s ! di], take di (tasks s) @ drop (Suc di) (tasks s))"
    using splice_remove_one [of di "tasks s"] by simp
  then show ?thesis
    using assms by (simp add: reorderTasks_def splice_insert_one del: One_nat_def)
qed

lemma reorderTasks_not_found:
  assumes "findIndex (\<lambda>t. id_field t = a) (tasks s) = None
         \<or> findIndex (\<lambda>t. id_field t = b) (tasks s) = None"
  shows "reorderTasks a b s = (Inr False, s)"
  using assms by (auto simp add: reorderTasks_def split: option.splits)

lemma reorderTasks_same:
  assumes "findIndex (\<lambda>t. id_field t = a) (tasks s) = Some i"
  shows "reorderTasks a a s = then_return (notifyObservers (saveTasks s)) True"
proof -
  from findIndex_Some [OF assms] have "i < length (tasks s)" by simp
  then have "s\<lparr>tasks := take i (take i (tasks s) @ drop (Suc i) (tasks s)) @
        tasks s ! i # drop i (take i (tasks s) @ drop (Suc i) (tasks s))\<rparr> = s"
    using remove_insert_same [of i "tasks s"] by simp
  with reorderTasks_found [OF assms assms] show ?thesis by simp
qed

lemma handleDrop_equal_ids: "handleDrop (Some a) a s = (None, s)"
  by (simp add: handleDrop_def)

text \<open>
  C4, as the code has it. For every pair of ids of which one is the id of no task
  in the store, \<open>reorderTasks\<close> returns false and leaves the store as it is: the
  sequence, the storage and the record of calls. When both ids are the same id of
  a task in the store, \<open>reorderTasks\<close> puts that task back where it was and goes
  on as after any move, with \<open>saveTasks\<close> and \<open>notifyObservers\<close>: with observers
  that only read it returns true, the sequence is unchanged, the storage is
  written and every observer has been called. (Equal ids are held back before the
  call, in \<open>handleDrop\<close>.)
\<close>

theorem reorderTasks_missing_or_same:
  "(a \<notin> id_field ` set (tasks s) \<or> b \<notin> id_field ` set (tasks s)
      \<longrightarrow> reorderTasks a b s = (Inr False, s))
   \<and> (a \<in> id_field ` set (tasks s)
      \<longrightarrow> reorderTasks a a s = then_return (notifyObservers (saveTasks s)) True)
   \<and> (a \<in> id_field ` set (tasks s) \<and> (\<forall>callback\<in>set (observers s). reads_only callback)
      \<longrightarrow> fst (reorderTasks a a s) = Inr True
        \<and> tasks (snd (reorderTasks a a s)) = tasks s
        \<and> localStorage_tasks (snd (reorderTasks a a s))
            = (if setItem_succeeds s then Some (tasks s) else localStorage_tasks s)
        \<and> calls (snd (reorderTasks a a s))
            = calls s @ replicate (length (observers s)) (tasks s))"
proof (intro conjI impI)
  assume "a \<notin> id_field ` set (tasks s) \<or> b \<notin> id_field ` set (tasks s)"
  then have "findIndex (\<lambda>t. id_field t = a) (tasks s) = None
         \<or> findIndex (\<lambda>t. id_field t = b) (tasks s) = None"
    by (auto simp add: findIndex_None)
  then show "reorderTasks a b s = (Inr False, s)"
    by (rule reorderTasks_not_found)
next
  assume "a \<in> id_field ` set (tasks s)"
  then have "\<exists>t\<in>set (tasks s). id_field t = a" by auto
  from findIndex_present [OF this] obtain i
    where "findIndex (\<lambda>t. id_field t = a) (tasks s) = Some i" by blast
  then show "reorderTasks a a s = then_return (notifyObservers (saveTasks s)) True"
    by (rule reorderTasks_same)
next
  assume h: "a \<in> id_field ` set (tasks s) \<and> (\<forall>callback\<in>set (observers s). reads_only callback)"
  then have "\<exists>t\<in>set (tasks s). id_field t = a" by auto
  from findIndex_present [OF this] obtain i
    where i: "findIndex (\<lambda>t. id_field t = a) (tasks s) = Some i" by blast
  from h have ro: "\<forall>callback\<in>set (observers s). reads_only callback" by simp
  have run: "reorderTasks a a s =
      (Inr True, (saveTasks s)\<lparr>calls := calls s @ replicate (length (observers s)) (tasks s)\<rparr>)"
    using notify_after_save [OF ro, of "tasks s" True]
    by (simp add: reorderTasks_same [OF i])
  show "fst (reorderTasks a a s) = Inr True"
    by (simp add: run)
  show "tasks (snd (reorderTasks a a s)) = tasks s"
    by (simp add: run store_simps)
  show "localStorage_tasks (snd (reorderTasks a a s))
      = (if setItem_succeeds s then Some (tasks s) else localStorage_tasks s)"
    by (simp add: run store_simps)
  show "calls (snd (reorderTasks a a s))
      = calls s @ replicate (length (observers s)) (tasks s)"
    by (simp add: run)
qed

theorem reorderTasks_missing_or_same_witness:
  "js ''nonexistent'' \<notin> id_field ` set (tasks two_tasks)
   \<and> reorderTasks (js ''nonexistent'') (id_field buy_milk) two_tasks = (Inr False, two_tasks)
   \<and> reorderTasks (id_field buy_milk) (js ''nonexistent'') two_tasks = (Inr False, two_tasks)
   \<and> id_field buy_milk \<in> id_field ` set (tasks two_tasks)
   \<and> observers two_tasks = [reader] \<and> reads_only reader
   \<and> tasks (snd (reorderTasks (id_field buy_milk) (id_field buy_milk) two_tasks)) = tasks two_tasks
   \<and> fst (reorderTasks (id_field buy_milk) (id_field buy_milk) two_tasks) = Inr True"
proof -
  have h1: "js ''nonexistent'' \<notin> id_field ` set (tasks two_tasks)"
    by (simp add: task_defs)
  have h2: "id_field buy_milk \<in> id_field ` set (tasks two_tasks)"
    by (simp add: task_defs)
  have obs: "observers two_tasks = [reader]"
    by (simp add: two_tasks_def)
  have h3: "\<forall>callback\<in>set (observers two_tasks). reads_only callback"
    by (simp add: obs reads_only_reader)
  from h1 h2 h3
    reorderTasks_missing_or_same [of "js ''nonexistent''" two_tasks "id_field buy_milk"]
    reorderTasks_missing_or_same [of "id_field buy_milk" two_tasks "js ''nonexistent''"]
    reorderTasks_missing_or_same [of "id_field buy_milk" two_tasks "id_field buy_milk"]
  have "reorderTasks (js ''nonexistent'') (id_field buy_milk) two_tasks = (Inr False, two_tasks)
   \<and> reorderTasks (id_field buy_milk) (js ''nonexistent'') two_tasks = (Inr False, two_tasks)
   \<and> tasks (snd (reorderTasks (id_field buy_milk) (id_field buy_milk) two_tasks)) = tasks two_tasks
   \<and> fst (reorderTasks (id_field buy_milk) (id_field buy_milk) two_tasks) = Inr True"
    by blast
  with h1 h2 obs reads_only_reader show ?thesis by blast
qed

text \<open>
  With the id of \<open>buy_milk\<close> for both arguments the call does not return false,
  and the observer is called.
\<close>

theorem reorderTasks_equal_ids_counterexample:
  "buy_milk \<in> set (tasks two_tasks)
   \<and> reorderTasks (id_field buy_milk) (id_field buy_milk) two_tasks
       = (Inr True, two_tasks\<lparr>calls := calls two_tasks @ [[walk_dog, buy_milk]]\<rparr>)"
  by (simp add: reorderTasks_def splice_js_def notifyObservers_def saveTasks_def then_return_def
      reader_def task_defs)




section \<open>toggleTask\<close>




lemma toggleTask_not_found:
  assumes "findIndex (\<lambda>t. id_field t = taskId) (tasks s) = None"
  shows "toggleTask e taskId s = (None, s)"
  using assms by (simp add: toggleTask_def)






text \<open>
  C9. For every id that is the id of no task in the store, \<open>toggleTask\<close> returns
  normally and leaves the store as it is: \<open>getAllTasks()\<close> and \<open>getStats()\<close> give what
  they gave, and no observer is called.
\<close>

theorem toggleTask_missing:
  assumes "taskId \<notin> id_field ` set (tasks s)"
  shows "toggleTask e taskId s = (None, s)
    \<and> getAllTasks (snd (toggleTask e taskId s)) = getAllTasks s
    \<and> getStats (snd (toggleTask e taskId s)) = getStats s
    \<and> calls (snd (toggleTask e taskId s)) = calls s"
proof -
  from assms have "findIndex (\<lambda>t. id_field t = taskId) (tasks s) = None"
    by (auto simp add: findIndex_None)
  then show ?thesis
    by (simp add: toggleTask_not_found)
qed

theorem toggleTask_missing_witness:
  "js ''nonexistent'' \<notin> id_field ` set (tasks two_tasks)
   \<and> toggleTask clock1 (js ''nonexistent'') two_tasks = (None, two_tasks)
   \<and> getStats (snd (toggleTask clock1 (js ''nonexistent'') two_tasks))
       = \<lparr>total = 2, completed = 0, pending = 2\<rparr>"
proof -
  have h: "js ''nonexistent'' \<notin> id_field ` set (tasks two_tasks)"
    by (simp add: task_defs)
  have st: "getStats two_tasks = \<lparr>total = 2, completed = 0, pending = 2\<rparr>"
    by (simp add: getStats_def Let_def task_defs)
  from toggleTask_missing [OF h, of clock1] h st show ?thesis by simp
qed

section \<open>deleteTask\<close>

lemma filter_out_unique:
  "findIndex P xs = Some i \<Longrightarrow> length (filter P xs) = 1
   \<Longrightarrow> filter (\<lambda>x. \<not> P x) xs = take i xs @ drop (Suc i) xs"
proof (induction xs arbitrary: i)
  case Nil
  then show ?case by simp
next
  case (Cons x xs)
  show ?case
  proof (cases "P x")
    case True
    with Cons.prems have "i = 0" and "filter P xs = []" by simp_all
    then have "filter (\<lambda>x. \<not> P x) xs = xs"
      by (simp add: filter_empty_conv filter_id_conv)
    with True \<open>i = 0\<close> show ?thesis by simp
  next
    case False
    with Cons.prems obtain k where k: "findIndex P xs = Some k" "i = Suc k"
      by auto
    from False Cons.prems(2) have "length (filter P xs) = 1" by simp
    from Cons.IH [OF k(1) this] False k(2) show ?thesis by simp
  qed
qed

lemma deleteTask_eq:
  "deleteTask taskId s =
     (if taskId \<in> id_field ` set (tasks s)
      then then_return (notifyObservers (saveTasks
              (s\<lparr>tasks := filter (\<lambda>t. id_field t \<noteq> taskId) (tasks s)\<rparr>))) True
      else (Inr False, s))"
proof (cases "taskId \<in> id_field ` set (tasks s)")
  case True
  then obtain t where "t \<in> set (tasks s)" "\<not> id_field t \<noteq> taskId" by auto
  then have "length (filter (\<lambda>t. id_field t \<noteq> taskId) (tasks s)) < length (tasks s)"
    by (rule length_filter_less)
  with True show ?thesis
    by (simp add: deleteTask_def Let_def)
next
  case False
  then have "filter (\<lambda>t. id_field t \<noteq> taskId) (tasks s) = tasks s"
    by (auto simp add: filter_id_conv)
  with False show ?thesis
    by (simp add: deleteTask_def Let_def)
qed

text \<open>
  C7, as the code has it. If the id is the id of a task in the store, \<open>deleteTask\<close>
  removes every task with that id, saves and notifies. With observers that only
  read it returns true, the other tasks are kept in their order, every observer
  has been called with the new sequence, and the count has gone down by the number
  of tasks with that id: by one, the task removed being that one, when exactly
  one task has the id. If no task has the id, \<open>deleteTask\<close> returns false and the
  store is as it was.
\<close>

theorem deleteTask_removes:
  "(taskId \<in> id_field ` set (tasks s) \<longrightarrow>
      deleteTask taskId s =
        then_return (notifyObservers (saveTasks
          (s\<lparr>tasks := filter (\<lambda>t. id_field t \<noteq> taskId) (tasks s)\<rparr>))) True)
   \<and> (taskId \<in> id_field ` set (tasks s) \<and> (\<forall>callback\<in>set (observers s). reads_only callback) \<longrightarrow>
      fst (deleteTask taskId s) = Inr True
    \<and> tasks (snd (deleteTask taskId s)) = filter (\<lambda>t. id_field t \<noteq> taskId) (tasks s)
    \<and> length (tasks (snd (deleteTask taskId s)))
        + length (filter (\<lambda>t. id_field t = taskId) (tasks s)) = length (tasks s)
    \<and> calls (snd (deleteTask taskId s))
        = calls s @ replicate (length (observers s)) (tasks (snd (deleteTask taskId s)))
    \<and> (length (filter (\<lambda>t. id_field t = taskId) (tasks s)) = 1 \<longrightarrow>
          Suc (length (tasks (snd (deleteTask taskId s)))) = length (tasks s)
        \<and> (\<exists>i<length (tasks s). id_field (tasks s ! i) = taskId
             \<and> tasks (snd (deleteTask taskId s)) = take i (tasks s) @ drop (Suc i) (tasks s))))
   \<and> (taskId \<notin> id_field ` set (tasks s) \<longrightarrow> deleteTask taskId s = (Inr False, s))"
proof (intro conjI impI)
  assume "taskId \<notin> id_field ` set (tasks s)"
  then show "deleteTask taskId s = (Inr False, s)"
    by (simp add: deleteTask_eq)
next
  assume "taskId \<in> id_field ` set (tasks s)"
  then show "deleteTask taskId s =
        then_return (notifyObservers (saveTasks
          (s\<lparr>tasks := filter (\<lambda>t. id_field t \<noteq> taskId) (tasks s)\<rparr>))) True"
    by (simp add: deleteTask_eq)
next
  assume h: "taskId \<in> id_field ` set (tasks s) \<and> (\<forall>callback\<in>set (observers s). reads_only callback)"
  then have present: "taskId \<in> id_field ` set (tasks s)"
    and ro: "\<forall>callback\<in>set (observers s). reads_only callback" by simp_all
  define kept where "kept = filter (\<lambda>t. id_field t \<noteq> taskId) (tasks s)"
  have run: "deleteTask taskId s =
      (Inr True, (saveTasks (s\<lparr>tasks := kept\<rparr>))
         \<lparr>calls := calls s @ replicate (length (observers s)) kept\<rparr>)"
    using present notify_after_save [OF ro, of kept True]
    by (simp add: deleteTask_eq kept_def)
  show "fst (deleteTask taskId s) = Inr True"
    by (simp add: run)
  show ts: "tasks (snd (deleteTask taskId s)) = filter (\<lambda>t. id_field t \<noteq> taskId) (tasks s)"
    by (simp add: run store_simps kept_def)
  show len: "length (tasks (snd (deleteTask taskId s)))
        + length (filter (\<lambda>t. id_field t = taskId) (tasks s)) = length (tasks s)"
    using sum_length_filter_compl [of "\<lambda>t. id_field t = taskId" "tasks s"]
    by (simp add: ts)
  show "calls (snd (deleteTask taskId s))
        = calls s @ replicate (length (observers s)) (tasks (snd (deleteTask taskId s)))"
    by (simp add: ts) (simp add: run kept_def)
  assume one: "length (filter (\<lambda>t. id_field t = taskId) (tasks s)) = 1"
  with len show "Suc (length (tasks (snd (deleteTask taskId s)))) = length (tasks s)"
    by simp
  from present have "\<exists>t\<in>set (tasks s). id_field t = taskId" by auto
  from findIndex_present [OF this] obtain i
    where i: "findIndex (\<lambda>t. id_field t = taskId) (tasks s) = Some i" by blast
  from filter_out_unique [OF i one] ts findIndex_Some [OF i]
  show "\<exists>i<length (tasks s). id_field (tasks s ! i) = taskId
             \<and> tasks (snd (deleteTask taskId s)) = take i (tasks s) @ drop (Suc i) (tasks s)"
    by auto
qed

theorem deleteTask_removes_witness:
  "id_field walk_dog \<in> id_field ` set (tasks two_tasks)
   \<and> observers two_tasks = [reader] \<and> reads_only reader
   \<and> length (filter (\<lambda>t. id_field t = id_field walk_dog) (tasks two_tasks)) = 1
   \<and> fst (deleteTask (id_field walk_dog) two_tasks) = Inr True
   \<and> tasks (snd (deleteTask (id_field walk_dog) two_tasks)) = [buy_milk]
   \<and> calls (snd (deleteTask (id_field walk_dog) two_tasks)) = calls two_tasks @ [[buy_milk]]
   \<and> js ''nonexistent'' \<notin> id_field ` set (tasks two_tasks)
   \<and> deleteTask (js ''nonexistent'') two_tasks = (Inr False, two_tasks)"
proof -
  have h1: "id_field walk_dog \<in> id_field ` set (tasks two_tasks)"
    by (simp add: task_defs)
  have obs: "observers two_tasks = [reader]"
    by (simp add: two_tasks_def)
  have ro: "\<forall>callback\<in>set (observers two_tasks). reads_only callback"
    by (simp add: obs reads_only_reader)
  have h2: "length (filter (\<lambda>t. id_field t = id_field walk_dog) (tasks two_tasks)) = 1"
    by (simp add: task_defs)
  have h3: "js ''nonexistent'' \<notin> id_field ` set (tasks two_tasks)"
    by (simp add: task_defs)
  have f: "filter (\<lambda>t. id_field t \<noteq> id_field walk_dog) (tasks two_tasks) = [buy_milk]"
    by (simp add: task_defs)
  from deleteTask_removes [of "id_field walk_dog" two_tasks, THEN conjunct2, THEN conjunct1]
    h1 ro h2 f obs
  have a: "fst (deleteTask (id_field walk_dog) two_tasks) = Inr True
     \<and> tasks (snd (deleteTask (id_field walk_dog) two_tasks)) = [buy_milk]
     \<and> calls (snd (deleteTask (id_field walk_dog) two_tasks)) = calls two_tasks @ [[buy_milk]]"
    by simp
  from deleteTask_removes [of "js ''nonexistent''" two_tasks] h3
  have b: "deleteTask (js ''nonexistent'') two_tasks = (Inr False, two_tasks)"
    by blast
  from h1 obs reads_only_reader h2 h3 a b show ?thesis by blast
qed

text \<open>
  In \<open>same_id_store\<close>, which \<open>addTask\<close> produced, two tasks have the id of
  \<open>buy_milk\<close>: deleting by that id takes the count from three to one. And with an
  observer that throws, \<open>deleteTask\<close> of a task in the store ends with the
  exception of the observer: it does not return true.
\<close>

theorem deleteTask_same_id_counterexample:
  "addTask clock1 (input ''Feed cat'') two_tasks = (Inr feed_cat, same_id_store)
   \<and> getAllTasks same_id_store = [feed_cat, walk_dog, buy_milk]
   \<and> fst (deleteTask (id_field buy_milk) same_id_store) = Inr True
   \<and> getAllTasks (snd (deleteTask (id_field buy_milk) same_id_store)) = [walk_dog]
   \<and> walk_dog \<in> set (getAllTasks failing_store)
   \<and> fst (deleteTask (id_field walk_dog) failing_store) = Inl (Error (js ''render failed''))"
proof -
  have "getAllTasks same_id_store = [feed_cat, walk_dog, buy_milk]"
    by (simp add: getAllTasks_def same_id_store_def)
  moreover have "fst (deleteTask (id_field buy_milk) same_id_store) = Inr True
      \<and> getAllTasks (snd (deleteTask (id_field buy_milk) same_id_store)) = [walk_dog]"
    by (simp add: deleteTask_def getAllTasks_def eval_defs)
  moreover have "walk_dog \<in> set (getAllTasks failing_store)
      \<and> fst (deleteTask (id_field walk_dog) failing_store) = Inl (Error (js ''render failed''))"
    by (simp add: deleteTask_def getAllTasks_def eval_defs)
  ultimately show ?thesis
    using scenario_3 by simp
qed

section \<open>getFilteredTasks\<close>

text \<open>
  C8. \<open>getFilteredTasks("pending")\<close> is the sequence of the tasks with
  \<open>completed == false\<close> and \<open>getFilteredTasks("completed")\<close> that of the tasks with
  \<open>completed == true\<close>, both in the order of the store; no task is in both, every
  task of \<open>getAllTasks()\<close> is in one of them, and their lengths add up to the length
  of \<open>getAllTasks()\<close>. Any other filter gives the sequence of \<open>getAllTasks()\<close>.
\<close>

theorem getFilteredTasks_partition:
  "getFilteredTasks (js ''pending'') s = filter (\<lambda>t. completed t = False) (getAllTasks s)
   \<and> getFilteredTasks (js ''completed'') s = filter (\<lambda>t. completed t = True) (getAllTasks s)
   \<and> set (getFilteredTasks (js ''pending'') s) \<inter> set (getFilteredTasks (js ''completed'') s) = {}
   \<and> set (getFilteredTasks (js ''pending'') s) \<union> set (getFilteredTasks (js ''completed'') s)
       = set (getAllTasks s)
   \<and> length (getFilteredTasks (js ''pending'') s) + length (getFilteredTasks (js ''completed'') s)
       = length (getAllTasks s)
   \<and> (f \<noteq> js ''pending'' \<and> f \<noteq> js ''completed'' \<longrightarrow> getFilteredTasks f s = getAllTasks s)"
proof -
  have ne: "js ''pending'' \<noteq> js ''completed''"
    by (simp add: js_def)
  have p: "getFilteredTasks (js ''pending'') s = filter (\<lambda>t. \<not> completed t) (tasks s)"
    using ne by (simp add: getFilteredTasks_def)
  have c: "getFilteredTasks (js ''completed'') s = filter (\<lambda>t. completed t) (tasks s)"
    by (simp add: getFilteredTasks_def)
  have len: "length (filter (\<lambda>t. \<not> completed t) (tasks s)) + length (filter (\<lambda>t. completed t) (tasks s))
      = length (tasks s)"
    using sum_length_filter_compl [of "\<lambda>t. completed t" "tasks s"] by simp
  have other: "f \<noteq> js ''pending'' \<and> f \<noteq> js ''completed'' \<longrightarrow> getFilteredTasks f s = getAllTasks s"
    by (simp add: getFilteredTasks_def getAllTasks_def)
  from len other show ?thesis
    unfolding p c getAllTasks_def by auto
qed

theorem getFilteredTasks_partition_witness:
  "js ''all'' \<noteq> js ''pending'' \<and> js ''all'' \<noteq> js ''completed''
   \<and> getFilteredTasks (js ''all'') two_tasks = getAllTasks two_tasks
   \<and> js ''archived'' \<noteq> js ''pending'' \<and> js ''archived'' \<noteq> js ''completed''
   \<and> getFilteredTasks (js ''archived'') two_tasks = getAllTasks two_tasks
   \<and> getFilteredTasks (js ''pending'') two_tasks = [walk_dog, buy_milk]
   \<and> getFilteredTasks (js ''completed'') two_tasks = []"
proof -
  have h: "js ''all'' \<noteq> js ''pending'' \<and> js ''all'' \<noteq> js ''completed''"
    "js ''archived'' \<noteq> js ''pending'' \<and> js ''archived'' \<noteq> js ''completed''"
    by (simp_all add: js_def)
  have all: "getAllTasks two_tasks = [walk_dog, buy_milk]"
    by (simp add: getAllTasks_def two_tasks_def)
  have flags: "completed walk_dog = False" "completed buy_milk = False"
    by (simp_all add: walk_dog_def buy_milk_def)
  from getFilteredTasks_partition [of two_tasks "js ''all''"]
    getFilteredTasks_partition [of two_tasks "js ''archived''"] h all flags
  show ?thesis by simp
qed

section \<open>Which array a caller is given\<close>

text \<open>Callbacks that only read leave the heap as it is.\<close>

lemma notifyObservers_ref_readers:
  assumes "\<forall>callback\<in>set (observers_var m). \<forall>r h. callback r h = h"
  shows "notifyObservers_ref m = m"
proof -
  have "fold (\<lambda>callback h. callback (tasks_var m) h) cbs h = h"
    if "\<forall>callback\<in>set cbs. \<forall>r h. callback r h = h" for cbs h
    using that by (induction cbs arbitrary: h) simp_all
  from this [OF assms] show ?thesis
    by (simp add: notifyObservers_ref_def)
qed

lemma notifyObservers_ref_one:
  "observers_var m = [callback] \<Longrightarrow>
   notifyObservers_ref m = m\<lparr>heap := callback (tasks_var m) (heap m)\<rparr>"
  by (simp add: notifyObservers_ref_def)

text \<open>
  \<open>getAllTasks\<close> returns a new array: writing to it does not change the sequence
  of the store. The elements of the new array are the task objects of the store.
\<close>

lemma getAllTasks_ref_snapshot:
  assumes "tasks_var m < next_ref (heap m)"
  shows "fst (getAllTasks_ref m) \<noteq> tasks_var m"
    and "arrays (heap (snd (getAllTasks_ref m))) (fst (getAllTasks_ref m))
           = arrays (heap m) (tasks_var m)"
    and "sequence_at (heap (snd (getAllTasks_ref m))) (fst (getAllTasks_ref m)) = live_tasks m"
    and "live_tasks (snd (getAllTasks_ref m)) = live_tasks m"
    and "live_tasks ((snd (getAllTasks_ref m))
            \<lparr>heap := write_array (fst (getAllTasks_ref m)) elems (heap (snd (getAllTasks_ref m)))\<rparr>)
           = live_tasks m"
  using assms
  by (simp_all add: getAllTasks_ref_def Let_def live_tasks_def sequence_at_def write_array_def
      split: option.splits)

lemma getAllTasks_ref_shares_objects:
  "fst (getAllTasks_ref clearing_store) = 2
   \<and> arrays (heap (snd (getAllTasks_ref clearing_store))) 2 = Some [1]
   \<and> live_tasks ((snd (getAllTasks_ref clearing_store))
        \<lparr>heap := write_object 1 (buy_milk\<lparr>completed := True\<rparr>)
                   (heap (snd (getAllTasks_ref clearing_store)))\<rparr>)
       = Some [buy_milk\<lparr>completed := True\<rparr>]"
  by (simp add: getAllTasks_ref_def Let_def live_tasks_def sequence_at_def write_object_def
      clearing_store_def one_task_heap_def)

text \<open>
  C3. \<open>notifyObservers\<close> calls each callback with the array of the store itself,
  not with a copy: in \<open>clearing_store\<close>, whose one callback empties the array it
  is given, the store holds \<open>buy_milk\<close> before the notification and nothing after
  it.
\<close>

theorem notifyObservers_ref_live_array:
  "live_tasks clearing_store = Some [buy_milk]
   \<and> live_tasks (notifyObservers_ref clearing_store) = Some []"
  by (simp add: live_tasks_def clearing_store_def notifyObservers_ref_def sequence_at_def
      one_task_heap_def write_array_def)

end
